theory Spec2Isabelle
  imports Main "HOL-Library.Sublist"
begin

section \<open>The query builder of database.go\<close>

text \<open>
  The Go type \<open>View\<close> is an \<open>int\<close> with the constants \<open>PAGES = iota + 1\<close> up to
  \<open>MONTHS\<close>. Only equality with these constants is ever computed on a view, so it is
  modelled as an unbounded integer: a statement proved for every \<open>int\<close> holds for every
  value a machine integer of any width can take.
\<close>

type_synonym View = int

definition PAGES :: View where "PAGES = 1"
definition REFERRERS :: View where "REFERRERS = 2"
definition USERAGENTS :: View where "USERAGENTS = 3"
definition HOURS :: View where "HOURS = 4"
definition DAYS :: View where "DAYS = 5"
definition WEEKS :: View where "WEEKS = 6"
definition MONTHS :: View where "MONTHS = 7"

text \<open>The struct \<open>ViewsRequest\<close>, with the field names of the source.\<close>

record ViewsRequest =
  view :: View
  "from" :: string
  to :: string
  url :: string
  ref :: string
  ua :: string

text \<open>
  \<open>sql.NamedArg\<close> as built by \<open>sql.Named(name, value)\<close>; every value bound in this file
  is a string.
\<close>

datatype NamedArg = Named string string

text \<open>\<open>strings.Join\<close>: nothing for no element, the element itself for one.\<close>

fun Join :: "string list \<Rightarrow> string \<Rightarrow> string" where
  "Join [] sep = []"
| "Join [x] sep = x"
| "Join (x # y # ys) sep = x @ sep @ Join (y # ys) sep"

text \<open>
  The four filter builders append to the slice behind the pointer \<open>namedArg\<close>; the model
  takes the slice and returns it, updated, beside the filter text.
\<close>

definition buildDateTimeFilter :: "ViewsRequest \<Rightarrow> NamedArg list \<Rightarrow> string \<times> NamedArg list" where
  "buildDateTimeFilter request namedArg =
     (if length (from request) > 0 \<and> length (to request) > 0 then
        (''datetime(time, 'localtime') between :from and :to'',
         (namedArg @ [Named ''from'' (from request)]) @ [Named ''to'' (to request)])
      else if length (from request) > 0 then
        (''datetime(time, 'localtime') >= :from'',
         namedArg @ [Named ''from'' (from request)])
      else if length (to request) > 0 then
        (''datetime(time, 'localtime') <= :to'',
         namedArg @ [Named ''to'' (to request)])
      else ([], namedArg))"

definition buildUrlFilter :: "ViewsRequest \<Rightarrow> NamedArg list \<Rightarrow> string \<times> NamedArg list" where
  "buildUrlFilter request namedArg =
     (if length (url request) > 0 then
        (''url like :url'', namedArg @ [Named ''url'' (''%'' @ url request @ ''%'')])
      else ([], namedArg))"

definition buildRefFilter :: "ViewsRequest \<Rightarrow> NamedArg list \<Rightarrow> string \<times> NamedArg list" where
  "buildRefFilter request namedArg =
     (if length (ref request) > 0 then
        (''ref like :ref'', namedArg @ [Named ''ref'' (''%'' @ ref request @ ''%'')])
      else ([], namedArg))"

definition buildUseragentFilter :: "ViewsRequest \<Rightarrow> NamedArg list \<Rightarrow> string \<times> NamedArg list" where
  "buildUseragentFilter request namedArg =
     (if length (ua request) > 0 then
        (''useragent like :ua'', namedArg @ [Named ''ua'' (''%'' @ ua request @ ''%'')])
      else ([], namedArg))"

text \<open>
  The loop of \<open>buildFilter\<close> over the four filter texts: a non-empty text is appended to
  \<open>allFilters\<close>, an empty one is skipped.
\<close>

fun collectFilters :: "string list \<Rightarrow> string list \<Rightarrow> string list" where
  "collectFilters [] allFilters = allFilters"
| "collectFilters (f # rest) allFilters =
     collectFilters rest (if length f > 0 then allFilters @ [f] else allFilters)"

text \<open>
  \<open>buildFilter\<close>: the elements of the slice literal are evaluated from left to right, each
  builder seeing the parameters the earlier ones appended.
\<close>

definition buildFilter :: "ViewsRequest \<Rightarrow> string \<times> NamedArg list" where
  "buildFilter request =
     (let parameters = [];
          (f1, parameters) = buildDateTimeFilter request parameters;
          (f2, parameters) = buildUrlFilter request parameters;
          (f3, parameters) = buildRefFilter request parameters;
          (f4, parameters) = buildUseragentFilter request parameters;
          allFilters = collectFilters [f1, f2, f3, f4] []
      in (Join allFilters '' and '', parameters))"

text \<open>
  \<open>buildStatement\<close>. The outer switch has no default: for a view that is none of the
  seven constants the named result keeps its zero value, the empty string. The inner
  switch has no default either; its format stays empty.
\<close>

definition buildStatement :: "ViewsRequest \<Rightarrow> string \<Rightarrow> string" where
  "buildStatement request filters0 =
     (let filters = (if length filters0 > 0 then '' where '' @ filters0 @ '' '' else '' '') in
      if view request = PAGES then
        ''SELECT url as first, count(*) as second from views'' @ filters @ ''group by url;''
      else if view request = REFERRERS then
        ''SELECT ref as first, count(*) as second from views'' @ filters @ ''group by ref;''
      else if view request = USERAGENTS then
        ''SELECT useragent as first, count(*) as second from views'' @ filters
          @ ''group by useragent;''
      else if view request = HOURS \<or> view request = DAYS \<or> view request = WEEKS
              \<or> view request = MONTHS then
        (let format =
           (if view request = HOURS then ''%Y-%m-%d %H''
            else if view request = DAYS then ''%Y-%m-%d''
            else if view request = WEEKS then ''%Y-%W''
            else if view request = MONTHS then ''%Y-%m''
            else [])
         in ''SELECT strftime('' @ [CHR 0x27] @ format @ [CHR 0x27]
              @ '', time, 'localtime') as first, count(*) as second from views''
              @ filters @ ''group by first;'')
      else [])"

section \<open>Executing a request\<close>

text \<open>
  The packages \<open>database/sql\<close>, \<open>net/url\<close> and \<open>user_agent\<close> are not part of the
  repository. What the code uses of them is modelled here, as far as the code can observe
  it; what they compute is left open, as fields of the record \<open>library\<close>.

  An error is its message. A result cursor (\<open>*sql.Rows\<close>) holds the rows the store has
  not delivered yet, each one either the two column values or the error \<open>Scan\<close> answers
  for it, the row \<open>Next\<close> has moved to, and whether the cursor has been released.
\<close>

type_synonym error = string

record Rows =
  pending :: "(error + string \<times> int) list"
  current :: "(error + string \<times> int) option"
  closed :: bool

text \<open>\<open>rows.Next\<close> moves to the next row; at the end of the rows it releases the cursor.\<close>

definition Rows_Next :: "Rows \<Rightarrow> bool \<times> Rows" where
  "Rows_Next rows =
     (if closed rows then (False, rows)
      else case pending rows of
             [] \<Rightarrow> (False, rows\<lparr>current := None, closed := True\<rparr>)
           | x # xs \<Rightarrow> (True, rows\<lparr>pending := xs, current := Some x\<rparr>))"

text \<open>\<open>rows.Scan(&first, &second)\<close> reads the row \<open>Next\<close> has moved to.\<close>

definition Rows_Scan :: "Rows \<Rightarrow> error + string \<times> int" where
  "Rows_Scan rows =
     (if closed rows then Inl ''sql: Rows are closed''
      else case current rows of
             None \<Rightarrow> Inl ''sql: Scan called without calling Next''
           | Some x \<Rightarrow> x)"

definition Rows_Close :: "Rows \<Rightarrow> Rows" where
  "Rows_Close rows = rows\<lparr>closed := True\<rparr>"

record RequestResultRow =
  First :: string
  Second :: int

text \<open>
  The row loop of \<open>request\<close>, with the named results \<open>resultRows\<close> and \<open>e\<close>. The bare
  \<open>return\<close> after a failed \<open>Scan\<close> returns both as they stand: \<open>resultRows\<close> still holds
  the rows appended so far.
\<close>

function scanRows :: "Rows \<Rightarrow> RequestResultRow list
    \<Rightarrow> RequestResultRow list \<times> error option \<times> Rows" where
  "scanRows rows resultRows =
     (case Rows_Next rows of
        (False, rows1) \<Rightarrow> (resultRows, None, rows1)
      | (True, rows1) \<Rightarrow>
          (case Rows_Scan rows1 of
             Inl e \<Rightarrow> (resultRows, Some e, Rows_Close rows1)
           | Inr (first, second) \<Rightarrow>
               scanRows rows1 (resultRows @ [\<lparr>First = first, Second = second\<rparr>])))"
  by pat_completeness auto
termination
  by (relation "measure (\<lambda>(rows, resultRows). length (pending rows))")
     (auto simp: Rows_Next_def split: if_splits list.splits)

text \<open>
  The store as the code sees it: the rows of the table \<open>views\<close> (columns \<open>url\<close>, \<open>ref\<close>,
  \<open>useragent\<close>; the column \<open>time\<close> is filled in by the store), the error it answers an
  insert with when it cannot write, the lines printed by \<open>fmt.Println\<close>, and the calls
  made into the libraries, oldest first.
\<close>

datatype call =
    Call_Parse string
  | Call_Browser string
  | Call_Exec string "NamedArg list"
  | Call_Query string "NamedArg list"

record state =
  views :: "(string \<times> string \<times> string) list"
  fault :: "error option"
  stdout :: "string list"
  calls :: "call list"

text \<open>
  \<open>url.Parse\<close> returns a \<open>*URL\<close>, or \<open>nil\<close> and an error: \<open>None\<close> here.
  \<open>Hostname\<close> reads the field \<open>Host\<close> of its receiver and strips the port.
  \<open>user_agent.New(ua).Browser()\<close> returns the browser's name and version.
  \<open>Query\<close> answers a statement and its arguments with an error or a result cursor.
\<close>

record URL =
  Scheme :: string
  Host :: string
  Path :: string
  RawQuery :: string

record library =
  url_Parse :: "string \<Rightarrow> URL option"
  stripPort :: "string \<Rightarrow> string"
  Browser :: "string \<Rightarrow> string \<times> string"
  Query :: "state \<Rightarrow> string \<Rightarrow> NamedArg list \<Rightarrow> error + Rows"

text \<open>A Go panic that nothing in this file recovers from ends the call.\<close>

datatype panic = NilPointerDereference

text \<open>
  \<open>parsedRef.Hostname()\<close> on the pointer \<open>url.Parse\<close> returned: reading \<open>u.Host\<close> through a
  nil pointer panics.
\<close>

definition Hostname :: "library \<Rightarrow> URL option \<Rightarrow> panic + string" where
  "Hostname lib u =
     (case u of None \<Rightarrow> Inl NilPointerDereference | Some v \<Rightarrow> Inr (stripPort lib (Host v)))"

fun lookupArg :: "string \<Rightarrow> NamedArg list \<Rightarrow> string" where
  "lookupArg name [] = []"
| "lookupArg name (Named n v # args) = (if n = name then v else lookupArg name args)"

text \<open>
  \<open>db.sqlDB.Exec\<close> of the insert statement of \<open>trackView\<close>: one row appended, or the
  store's error and no row.
\<close>

definition Exec :: "state \<Rightarrow> string \<Rightarrow> NamedArg list \<Rightarrow> error option \<times> state" where
  "Exec s statement args =
     (let s1 = s\<lparr>calls := calls s @ [Call_Exec statement args]\<rparr> in
      case fault s of
        Some e \<Rightarrow> (Some e, s1)
      | None \<Rightarrow>
          (None, s1\<lparr>views := views s1 @
             [(lookupArg ''url'' args, lookupArg ''ref'' args, lookupArg ''ua'' args)]\<rparr>))"

text \<open>
  \<open>trackView\<close>. The parameters \<open>ref\<close> and \<open>ua\<close> of the source are \<open>ref0\<close> and \<open>ua0\<close> here,
  and \<open>ref1\<close> and \<open>ua1\<close> after the source has assigned to them.
\<close>

definition trackView :: "library \<Rightarrow> state \<Rightarrow> string \<Rightarrow> string \<Rightarrow> string \<Rightarrow> panic + state" where
  "trackView lib s urlString ref0 ua0 =
     (if length urlString = 0 then Inr s
      else
        case (if ref0 \<noteq> [] then
                (case Hostname lib (url_Parse lib ref0) of
                   Inl p \<Rightarrow> Inl p
                 | Inr h \<Rightarrow> Inr (h, s\<lparr>calls := calls s @ [Call_Parse ref0]\<rparr>))
              else Inr (ref0, s)) of
          Inl p \<Rightarrow> Inl p
        | Inr (ref1, s1) \<Rightarrow>
            (let (ua1, s2) =
                   (if ua0 \<noteq> [] then
                      (let (uaName, uaVersion) = Browser lib ua0
                       in (uaName @ '' '' @ uaVersion, s1\<lparr>calls := calls s1 @ [Call_Browser ua0]\<rparr>))
                    else (ua0, s1));
                 (e, s3) = Exec s2 ''insert into views(url, ref, useragent) values(:url, :ref, :ua)''
                             [Named ''url'' urlString, Named ''ref'' ref1, Named ''ua'' ua1]
             in case e of
                  Some err \<Rightarrow> Inr (s3\<lparr>stdout := stdout s3 @ [''Inserting into DB failed: '' @ err]\<rparr>)
                | None \<Rightarrow> Inr s3))"

text \<open>
  \<open>request\<close> returns \<open>resultRows\<close> and \<open>e\<close>; a nil slice is \<open>None\<close>, a nil error is \<open>None\<close>.
  The third component is the cursor as the call leaves it, when there is one.
\<close>

definition request :: "library \<Rightarrow> state \<Rightarrow> ViewsRequest
    \<Rightarrow> RequestResultRow list option \<times> error option \<times> Rows option" where
  "request lib s req =
     (let (filterString, parameters) = buildFilter req;
          namedArgs = parameters;
          statement = buildStatement req filterString
      in case Query lib s statement namedArgs of
           Inl e \<Rightarrow> (None, Some e, None)
         | Inr rows \<Rightarrow>
             (let (resultRows, e, rows1) = scanRows rows [] in (Some resultRows, e, Some rows1)))"

section \<open>The LIKE operator of the store\<close>

text \<open>
  The three substring filters are the predicate \<open>column like :name\<close>, with the filter
  value between two \<open>%\<close> bound to \<open>:name\<close>; the statement has no \<open>ESCAPE\<close> clause. The
  store is SQLite, which is not part of the repository. Its built-in \<open>like\<close> is modelled
  here as SQLite implements it:

  \<^item> it refuses a pattern of more bytes than its pattern limit (50000 unless configured);
  \<^item> it reads the pattern and the text as C strings, up to the first NUL byte;
  \<^item> it compares characters, not bytes, decoding UTF-8 as \<open>sqlite3Utf8Read\<close> does: a byte
    below \<open>0xC0\<close> is a character of its own, a byte from \<open>0xC0\<close> on starts a character
    and takes every continuation byte (\<open>0x80\<close> to \<open>0xBF\<close>) that follows, in 32-bit
    arithmetic, and a result below \<open>0x80\<close>, a surrogate, \<open>0xFFFE\<close> or \<open>0xFFFF\<close> is
    replaced by \<open>0xFFFD\<close>;
  \<^item> in the pattern \<open>%\<close> stands for any run of characters and \<open>_\<close> for any one
    character; every other character stands for itself, ASCII letters without regard to
    case unless the store is set to a case-sensitive \<open>like\<close>.
\<close>

record likeSettings =
  noCase :: bool
  patternLimit :: nat

text \<open>The table \<open>sqlite3Utf8Trans1\<close>: the payload bits of a lead byte.\<close>

definition utf8Trans1 :: "int \<Rightarrow> int" where
  "utf8Trans1 n =
     (if n < 0xE0 then n mod 32
      else if n < 0xF0 then n mod 16
      else if n < 0xF8 then n mod 8
      else if n < 0xFC then n mod 4
      else if n < 0xFE then n mod 2
      else 0)"

text \<open>
  The end of a multi-byte character: \<open>c < 0x80\<close>, \<open>(c & 0xFFFFF800) == 0xD800\<close> and
  \<open>(c & 0xFFFFFFFE) == 0xFFFE\<close> give \<open>0xFFFD\<close>.
\<close>

definition utf8Final :: "int \<Rightarrow> int" where
  "utf8Final c =
     (if c < 0x80 \<or> c div 0x800 = 0x1B \<or> c div 2 = 0x7FFF then 0xFFFD else c)"

text \<open>
  The characters of a byte string. The first argument is the multi-byte character being
  read, if any; a continuation byte adds its six low bits, \<open>c = (c << 6) + (0x3f & b)\<close>
  on an \<open>unsigned int\<close>.
\<close>

fun utf8Chars :: "int option \<Rightarrow> string \<Rightarrow> int list" where
  "utf8Chars None [] = []"
| "utf8Chars (Some c) [] = [utf8Final c]"
| "utf8Chars None (b # bs) =
     (if of_char b < (0xC0 :: int) then of_char b # utf8Chars None bs
      else utf8Chars (Some (utf8Trans1 (of_char b))) bs)"
| "utf8Chars (Some c) (b # bs) =
     (if (0x80 :: int) \<le> of_char b \<and> of_char b < (0xC0 :: int) then
        utf8Chars (Some ((c * 64 + of_char b mod 64) mod 2 ^ 32)) bs
      else if of_char b < (0x80 :: int) then utf8Final c # of_char b # utf8Chars None bs
      else utf8Final c # utf8Chars (Some (utf8Trans1 (of_char b))) bs)"

text \<open>A text as the store reads it: the characters before the first NUL byte.\<close>

definition storeText :: "string \<Rightarrow> int list" where
  "storeText s = utf8Chars None (takeWhile (\<lambda>b. b \<noteq> CHR 0x00) s)"

definition asciiLower :: "int \<Rightarrow> int" where
  "asciiLower c = (if 0x41 \<le> c \<and> c \<le> 0x5A then c + 0x20 else c)"

text \<open>When a character of the pattern that is no wildcard matches a character of the text.\<close>

definition likeEq :: "bool \<Rightarrow> int \<Rightarrow> int \<Rightarrow> bool" where
  "likeEq nc c c2 =
     (c = c2 \<or> (nc \<and> c < 0x80 \<and> c2 < 0x80 \<and> asciiLower c = asciiLower c2))"

text \<open>\<open>patternCompare\<close> on characters: \<open>0x25\<close> is \<open>%\<close> and \<open>0x5F\<close> is \<open>_\<close>.\<close>

fun patternCompare :: "bool \<Rightarrow> int list \<Rightarrow> int list \<Rightarrow> bool" where
  "patternCompare nc [] s = (s = [])"
| "patternCompare nc (p # ps) [] = (p = 0x25 \<and> patternCompare nc ps [])"
| "patternCompare nc (p # ps) (c # cs) =
     (if p = 0x25 then patternCompare nc ps (c # cs) \<or> patternCompare nc (p # ps) cs
      else (likeEq nc p c \<or> p = 0x5F) \<and> patternCompare nc ps cs)"

text \<open>\<open>text like pattern\<close>: an error for a pattern beyond the limit, else whether it matches.\<close>

definition sql_like :: "likeSettings \<Rightarrow> string \<Rightarrow> string \<Rightarrow> error + bool" where
  "sql_like st pattern text0 =
     (if length pattern > patternLimit st then Inl ''LIKE or GLOB pattern too complex''
      else Inr (patternCompare (noCase st) (storeText pattern) (storeText text0)))"

text \<open>
  A substring match: \<open>v\<close> occurs in \<open>s\<close> at some position, the elements compared with
  \<open>ceq\<close>.
\<close>

fun prefixBy :: "('a \<Rightarrow> 'a \<Rightarrow> bool) \<Rightarrow> 'a list \<Rightarrow> 'a list \<Rightarrow> bool" where
  "prefixBy ceq [] s = True"
| "prefixBy ceq (p # ps) [] = False"
| "prefixBy ceq (p # ps) (c # cs) = (ceq p c \<and> prefixBy ceq ps cs)"

fun containsBy :: "('a \<Rightarrow> 'a \<Rightarrow> bool) \<Rightarrow> 'a list \<Rightarrow> 'a list \<Rightarrow> bool" where
  "containsBy ceq v [] = prefixBy ceq v []"
| "containsBy ceq v (c # cs) = (prefixBy ceq v (c # cs) \<or> containsBy ceq v cs)"

text \<open>A text of ASCII characters other than NUL.\<close>

definition asciiText :: "string \<Rightarrow> bool" where
  "asciiText s = list_all (\<lambda>b. (0 :: int) < of_char b \<and> of_char b < (0x80 :: int)) s"

section \<open>The filter composition in the words of the specification\<close>

text \<open>
  The active predicates of a request, in the order datetime, url, ref, ua: a filter
  that is not set contributes nothing. The datetime predicate is the two-sided one when
  both bounds are set and a one-sided one otherwise.
\<close>

definition spec_datetime_predicate :: "ViewsRequest \<Rightarrow> string" where
  "spec_datetime_predicate r =
     (if from r \<noteq> [] \<and> to r \<noteq> [] then ''datetime(time, 'localtime') between :from and :to''
      else if from r \<noteq> [] then ''datetime(time, 'localtime') >= :from''
      else ''datetime(time, 'localtime') <= :to'')"

definition spec_active_predicates :: "ViewsRequest \<Rightarrow> string list" where
  "spec_active_predicates r =
     (if from r = [] \<and> to r = [] then [] else [spec_datetime_predicate r])
     @ (if url r = [] then [] else [''url like :url''])
     @ (if ref r = [] then [] else [''ref like :ref''])
     @ (if ua r = [] then [] else [''useragent like :ua''])"

fun spec_conjunction :: "string list \<Rightarrow> string" where
  "spec_conjunction [] = []"
| "spec_conjunction [p] = p"
| "spec_conjunction (p # q # ps) = p @ '' and '' @ spec_conjunction (q # ps)"

section \<open>Sample inputs\<close>

text \<open>
  A library whose \<open>url.Parse\<close> rejects the text \<open>://example.com\<close> (Go answers it with
  \<open>missing protocol scheme\<close>) and takes every other text for a host, and whose \<open>Query\<close>
  answers with a given cursor.
\<close>

definition sampleLibrary :: "Rows \<Rightarrow> library" where
  "sampleLibrary rows =
     \<lparr>url_Parse = (\<lambda>t. if t = ''://example.com'' then None
                        else Some \<lparr>Scheme = [], Host = t, Path = [], RawQuery = []\<rparr>),
      stripPort = takeWhile (\<lambda>c. c \<noteq> CHR '':''),
      Browser = (\<lambda>t. (''Firefox'', ''60.0'')),
      Query = (\<lambda>s statement args. Inr rows)\<rparr>"

definition emptyRows :: Rows where
  "emptyRows = \<lparr>pending = [], current = None, closed = False\<rparr>"

definition brokenRows :: Rows where
  "brokenRows =
     \<lparr>pending = [Inr (''/a'', 2), Inl ''converting NULL to int is unsupported'', Inr (''/b'', 1)],
      current = None, closed = False\<rparr>"

text \<open>The store as SQLite is built and opened by default, and set to a case-sensitive \<open>like\<close>.\<close>

definition defaultLike :: likeSettings where
  "defaultLike = \<lparr>noCase = True, patternLimit = 50000\<rparr>"

definition caseSensitiveLike :: likeSettings where
  "caseSensitiveLike = \<lparr>noCase = False, patternLimit = 50000\<rparr>"

definition emptyState :: state where
  "emptyState = \<lparr>views = [], fault = None, stdout = [], calls = []\<rparr>"

text \<open>
  Two requests with the same view and the same filters set (\<open>from\<close>, \<open>url\<close>, \<open>ref\<close> and
  \<open>ua\<close>, not \<open>to\<close>) and different values in them.
\<close>

definition injectionRequest :: ViewsRequest where
  "injectionRequest =
     \<lparr>view = PAGES, from = ''2019-05-01'', to = [], url = ''a' OR 1=1 --'', ref = ''%'',
      ua = ''_''\<rparr>"

definition blogRequest :: ViewsRequest where
  "blogRequest =
     \<lparr>view = PAGES, from = ''2019-06-01 12:00:00'', to = [], url = ''blog'',
      ref = ''example.com'', ua = ''Firefox''\<rparr>"

section \<open>Facts about the builders\<close>

declare scanRows.simps [simp del]

lemmas View_defs =
  PAGES_def REFERRERS_def USERAGENTS_def HOURS_def DAYS_def WEEKS_def MONTHS_def

lemma collectFilters_filter:
  "collectFilters fs acc = acc @ filter (\<lambda>f. f \<noteq> []) fs"
  by (induction fs arbitrary: acc) simp_all

lemma buildDateTimeFilter_text:
  "fst (buildDateTimeFilter r ps) =
     (if from r = [] \<and> to r = [] then [] else spec_datetime_predicate r)"
  by (simp add: buildDateTimeFilter_def spec_datetime_predicate_def)

lemma buildDateTimeFilter_parameters:
  "snd (buildDateTimeFilter r ps) =
     ps @ (if from r = [] then [] else [Named ''from'' (from r)])
        @ (if to r = [] then [] else [Named ''to'' (to r)])"
  by (simp add: buildDateTimeFilter_def)

lemma buildUrlFilter_eq:
  "buildUrlFilter r ps =
     (if url r = [] then [] else ''url like :url'',
      ps @ (if url r = [] then [] else [Named ''url'' (''%'' @ url r @ ''%'')]))"
  by (simp add: buildUrlFilter_def)

lemma buildRefFilter_eq:
  "buildRefFilter r ps =
     (if ref r = [] then [] else ''ref like :ref'',
      ps @ (if ref r = [] then [] else [Named ''ref'' (''%'' @ ref r @ ''%'')]))"
  by (simp add: buildRefFilter_def)

lemma buildUseragentFilter_eq:
  "buildUseragentFilter r ps =
     (if ua r = [] then [] else ''useragent like :ua'',
      ps @ (if ua r = [] then [] else [Named ''ua'' (''%'' @ ua r @ ''%'')]))"
  by (simp add: buildUseragentFilter_def)

text \<open>\<open>buildFilter\<close> without its local variables.\<close>

lemma buildFilter_unfold:
  "buildFilter r =
     (Join (collectFilters
              [fst (buildDateTimeFilter r []), fst (buildUrlFilter r []),
               fst (buildRefFilter r []), fst (buildUseragentFilter r [])] []) '' and '',
      snd (buildUseragentFilter r (snd (buildRefFilter r (snd (buildUrlFilter r
             (snd (buildDateTimeFilter r []))))))))"
  unfolding buildFilter_def Let_def
  by (simp add: split_beta buildUrlFilter_def buildRefFilter_def buildUseragentFilter_def
      del: collectFilters.simps Join.simps)

lemma spec_datetime_predicate_nonempty: "spec_datetime_predicate r \<noteq> []"
  by (simp add: spec_datetime_predicate_def)

lemma collect_active:
  "collectFilters
     [fst (buildDateTimeFilter r []), fst (buildUrlFilter r []), fst (buildRefFilter r []),
      fst (buildUseragentFilter r [])] [] = spec_active_predicates r"
  by (simp add: collectFilters_filter buildDateTimeFilter_text buildUrlFilter_eq buildRefFilter_eq
      buildUseragentFilter_eq spec_active_predicates_def spec_datetime_predicate_nonempty
      del: collectFilters.simps)

lemma Join_and: "Join ps '' and '' = spec_conjunction ps"
  by (induction ps rule: spec_conjunction.induct) simp_all

lemma buildFilter_text:
  "fst (buildFilter r) = spec_conjunction (spec_active_predicates r)"
  by (simp only: buildFilter_unfold fst_conv collect_active Join_and)

text \<open>
  The parameters \<open>buildFilter\<close> collects: one for each filter that is set, in the order
  \<open>from\<close>, \<open>to\<close>, \<open>url\<close>, \<open>ref\<close>, \<open>ua\<close>, each carrying the value of its filter.
\<close>

lemma buildFilter_parameters:
  "snd (buildFilter r) =
     (if from r = [] then [] else [Named ''from'' (from r)])
     @ (if to r = [] then [] else [Named ''to'' (to r)])
     @ (if url r = [] then [] else [Named ''url'' (''%'' @ url r @ ''%'')])
     @ (if ref r = [] then [] else [Named ''ref'' (''%'' @ ref r @ ''%'')])
     @ (if ua r = [] then [] else [Named ''ua'' (''%'' @ ua r @ ''%'')])"
  by (simp only: buildFilter_unfold snd_conv buildDateTimeFilter_parameters buildUrlFilter_eq
      buildRefFilter_eq buildUseragentFilter_eq append_Nil append_assoc)

lemma spec_active_predicates_cong:
  assumes "(from r1 = []) = (from r2 = [])" "(to r1 = []) = (to r2 = [])"
    "(url r1 = []) = (url r2 = [])" "(ref r1 = []) = (ref r2 = [])" "(ua r1 = []) = (ua r2 = [])"
  shows "spec_active_predicates r1 = spec_active_predicates r2"
  using assms by (simp add: spec_active_predicates_def spec_datetime_predicate_def)

lemma spec_active_predicates_none:
  "from r = [] \<Longrightarrow> to r = [] \<Longrightarrow> url r = [] \<Longrightarrow> ref r = [] \<Longrightarrow> ua r = [] \<Longrightarrow>
     spec_active_predicates r = []"
  by (simp add: spec_active_predicates_def)

lemma buildStatement_view_cong:
  "view r1 = view r2 \<Longrightarrow> buildStatement r1 f = buildStatement r2 f"
  by (simp only: buildStatement_def)

lemma buildStatement_no_filter:
  "buildStatement r [] =
     (if view r = PAGES then ''SELECT url as first, count(*) as second from views group by url;''
      else if view r = REFERRERS then
        ''SELECT ref as first, count(*) as second from views group by ref;''
      else if view r = USERAGENTS then
        ''SELECT useragent as first, count(*) as second from views group by useragent;''
      else if view r = HOURS then
        ''SELECT strftime('%Y-%m-%d %H', time, 'localtime') as first, count(*) as second from views group by first;''
      else if view r = DAYS then
        ''SELECT strftime('%Y-%m-%d', time, 'localtime') as first, count(*) as second from views group by first;''
      else if view r = WEEKS then
        ''SELECT strftime('%Y-%W', time, 'localtime') as first, count(*) as second from views group by first;''
      else if view r = MONTHS then
        ''SELECT strftime('%Y-%m', time, 'localtime') as first, count(*) as second from views group by first;''
      else [])"
  by (simp add: buildStatement_def View_defs)

lemma buildStatement_no_filter_no_where:
  "\<not> sublist ''where'' (buildStatement r [])"
  by (simp add: buildStatement_no_filter sublist_Cons_right)

section \<open>Facts about the row loop\<close>

lemma scanRows_scan_error:
  assumes "\<not> closed rows" and "pending rows = map Inr good @ Inl err # rest"
  shows "scanRows rows acc =
           (acc @ map (\<lambda>(f, n). \<lparr>First = f, Second = n\<rparr>) good, Some err,
            rows\<lparr>pending := rest, current := Some (Inl err), closed := True\<rparr>)"
  using assms
proof (induction good arbitrary: rows acc)
  case Nil
  then show ?case
    by (subst scanRows.simps) (simp add: Rows_Next_def Rows_Scan_def Rows_Close_def)
next
  case (Cons g good)
  obtain f n where g: "g = (f, n)" by (cases g)
  let ?rows1 = "rows\<lparr>pending := map Inr good @ Inl err # rest, current := Some (Inr g)\<rparr>"
  have step: "scanRows rows acc = scanRows ?rows1 (acc @ [\<lparr>First = f, Second = n\<rparr>])"
    using Cons.prems g
    by (subst scanRows.simps) (simp add: Rows_Next_def Rows_Scan_def)
  have "scanRows ?rows1 (acc @ [\<lparr>First = f, Second = n\<rparr>]) =
          ((acc @ [\<lparr>First = f, Second = n\<rparr>]) @ map (\<lambda>(f, n). \<lparr>First = f, Second = n\<rparr>) good,
           Some err, ?rows1\<lparr>pending := rest, current := Some (Inl err), closed := True\<rparr>)"
    using Cons.prems by (intro Cons.IH) simp_all
  with step g show ?case by simp
qed

lemma scanRows_all_good:
  assumes "\<not> closed rows" and "pending rows = map Inr good"
  shows "scanRows rows acc =
           (acc @ map (\<lambda>(f, n). \<lparr>First = f, Second = n\<rparr>) good, None,
            rows\<lparr>pending := [], current := None, closed := True\<rparr>)"
  using assms
proof (induction good arbitrary: rows acc)
  case Nil
  then show ?case
    by (subst scanRows.simps) (simp add: Rows_Next_def)
next
  case (Cons g good)
  obtain f n where g: "g = (f, n)" by (cases g)
  let ?rows1 = "rows\<lparr>pending := map Inr good, current := Some (Inr g)\<rparr>"
  have step: "scanRows rows acc = scanRows ?rows1 (acc @ [\<lparr>First = f, Second = n\<rparr>])"
    using Cons.prems g
    by (subst scanRows.simps) (simp add: Rows_Next_def Rows_Scan_def)
  have "scanRows ?rows1 (acc @ [\<lparr>First = f, Second = n\<rparr>]) =
          ((acc @ [\<lparr>First = f, Second = n\<rparr>]) @ map (\<lambda>(f, n). \<lparr>First = f, Second = n\<rparr>) good,
           None, ?rows1\<lparr>pending := [], current := None, closed := True\<rparr>)"
    using Cons.prems by (intro Cons.IH) simp_all
  with step g show ?case by simp
qed

lemma scanRows_no_rows:
  assumes "pending rows = []"
  shows "scanRows rows acc =
           (acc, None, if closed rows then rows else rows\<lparr>current := None, closed := True\<rparr>)"
  using assms by (subst scanRows.simps) (simp add: Rows_Next_def)

lemma request_unfold:
  "request lib s req =
     (case Query lib s (buildStatement req (fst (buildFilter req))) (snd (buildFilter req)) of
        Inl e \<Rightarrow> (None, Some e, None)
      | Inr rows \<Rightarrow> (Some (fst (scanRows rows [])), fst (snd (scanRows rows [])),
                     Some (snd (snd (scanRows rows [])))))"
  by (simp add: request_def split_beta split: sum.splits)

section \<open>Facts about LIKE\<close>

lemma utf8Final_ge: "0x80 \<le> utf8Final c"
  by (simp add: utf8Final_def)

lemma utf8Chars_append_percent:
  "utf8Chars st (v @ ''%'') = utf8Chars st v @ [0x25]"
proof (induction v arbitrary: st)
  case Nil
  show ?case by (cases st) simp_all
next
  case (Cons b bs)
  show ?case by (cases st) (simp_all add: Cons.IH)
qed

text \<open>An ASCII character among the characters read is one of the bytes.\<close>

lemma utf8Chars_ascii_member:
  "x \<in> set (utf8Chars st v) \<Longrightarrow> x < 0x80 \<Longrightarrow> \<exists>b \<in> set v. of_char b = x"
proof (induction v arbitrary: st)
  case Nil
  then show ?case
    using utf8Final_ge [of "the st"] by (cases st) auto
next
  case (Cons b bs)
  show ?case
  proof (cases st)
    case None
    with Cons.prems Cons.IH show ?thesis by (auto split: if_splits)
  next
    case (Some c)
    with Cons.prems Cons.IH utf8Final_ge [of c] show ?thesis
      by (auto split: if_splits)
  qed
qed

lemma of_char_percent: "(of_char b = (0x25 :: int)) = (b = CHR ''%'')"
  using of_char_eq_iff [of b "CHR ''%''", where ?'a = int] by simp

lemma of_char_underscore: "(of_char b = (0x5F :: int)) = (b = CHR ''_'')"
  using of_char_eq_iff [of b "CHR ''_''", where ?'a = int] by simp

lemma of_char_nul: "(of_char b = (0 :: int)) = (b = CHR 0x00)"
  using of_char_eq_iff [of b "CHR 0x00", where ?'a = int] by simp

lemma storeText_no_percent:
  "CHR ''%'' \<notin> set v \<Longrightarrow> 0x25 \<notin> set (storeText v)"
  unfolding storeText_def
  using utf8Chars_ascii_member [of "0x25" None "takeWhile (\<lambda>b. b \<noteq> CHR 0x00) v"]
  by (auto simp: of_char_percent dest: set_takeWhileD)

lemma storeText_no_underscore:
  "CHR ''_'' \<notin> set v \<Longrightarrow> 0x5F \<notin> set (storeText v)"
  unfolding storeText_def
  using utf8Chars_ascii_member [of "0x5F" None "takeWhile (\<lambda>b. b \<noteq> CHR 0x00) v"]
  by (auto simp: of_char_underscore dest: set_takeWhileD)

lemma takeWhile_no_nul:
  "CHR 0x00 \<notin> set v \<Longrightarrow> takeWhile (\<lambda>b. b \<noteq> CHR 0x00) v = v"
  by (induction v) auto

lemma storeText_pattern:
  assumes "CHR 0x00 \<notin> set v"
  shows "storeText (''%'' @ v @ ''%'') = 0x25 # storeText v @ [0x25]"
proof -
  have "CHR 0x00 \<notin> set (''%'' @ v @ ''%'')"
    using assms by simp
  then have "takeWhile (\<lambda>b. b \<noteq> CHR 0x00) (''%'' @ v @ ''%'') = ''%'' @ v @ ''%''"
    by (rule takeWhile_no_nul)
  then have "storeText (''%'' @ v @ ''%'') = utf8Chars None (''%'' @ v @ ''%'')"
    unfolding storeText_def by (rule arg_cong)
  also have "\<dots> = 0x25 # utf8Chars None (v @ ''%'')"
    by simp
  also have "\<dots> = 0x25 # utf8Chars None v @ [0x25]"
    by (simp only: utf8Chars_append_percent)
  finally have "storeText (''%'' @ v @ ''%'') = 0x25 # utf8Chars None v @ [0x25]" .
  moreover have "storeText v = utf8Chars None v"
    unfolding storeText_def using takeWhile_no_nul [OF assms] by (rule arg_cong)
  ultimately show ?thesis by (simp only:)
qed

lemma patternCompare_percent: "patternCompare nc [0x25] s"
  by (induction s) simp_all

lemma patternCompare_literal_prefix:
  assumes "0x25 \<notin> set v" and "0x5F \<notin> set v"
  shows "patternCompare nc (v @ [0x25]) s = prefixBy (likeEq nc) v s"
  using assms
proof (induction v arbitrary: s)
  case Nil
  then show ?case by (simp add: patternCompare_percent)
next
  case (Cons p ps)
  then show ?case by (cases s) auto
qed

lemma patternCompare_contains:
  assumes "0x25 \<notin> set v" and "0x5F \<notin> set v"
  shows "patternCompare nc (0x25 # v @ [0x25]) s = containsBy (likeEq nc) v s"
proof (induction s)
  case Nil
  show ?case using patternCompare_literal_prefix [OF assms, of nc "[]"] by simp
next
  case (Cons c cs)
  show ?case
    using patternCompare_literal_prefix [OF assms, of nc "c # cs"] Cons.IH by simp
qed

text \<open>A pattern of nothing but \<open>%\<close> matches every text.\<close>

lemma patternCompare_percents_empty:
  "set ps \<subseteq> {0x25} \<Longrightarrow> patternCompare nc ps []"
  by (induction ps) simp_all

lemma patternCompare_percents:
  "set ps \<subseteq> {0x25} \<Longrightarrow> patternCompare nc (0x25 # ps) s"
  by (induction s) (simp_all add: patternCompare_percents_empty)

text \<open>
  The plain filter value: the bound pattern matches the texts that contain the value,
  both as the store reads them.
\<close>

lemma sql_like_plain_value:
  assumes "CHR ''%'' \<notin> set v" and "CHR ''_'' \<notin> set v" and "CHR 0x00 \<notin> set v"
    and "length v + 2 \<le> patternLimit st"
  shows "sql_like st (''%'' @ v @ ''%'') stored =
           Inr (containsBy (likeEq (noCase st)) (storeText v) (storeText stored))"
proof -
  have "patternCompare (noCase st) (0x25 # storeText v @ [0x25]) (storeText stored) =
          containsBy (likeEq (noCase st)) (storeText v) (storeText stored)"
    using assms(1,2) by (intro patternCompare_contains storeText_no_percent storeText_no_underscore)
  moreover have "length (''%'' @ v @ ''%'') \<le> patternLimit st"
    using assms(4) by simp
  ultimately show ?thesis
    unfolding sql_like_def by (simp only: storeText_pattern [OF assms(3)] not_less [symmetric] if_False)
qed

lemma sql_like_percent_value:
  assumes "3 \<le> patternLimit st"
  shows "sql_like st ''%%%'' stored = Inr True"
proof -
  have "storeText ''%%%'' = [0x25, 0x25, 0x25]"
    by (simp add: storeText_def)
  moreover have "patternCompare (noCase st) [0x25, 0x25, 0x25] (storeText stored)"
    by (rule patternCompare_percents) simp
  ultimately show ?thesis
    using assms by (simp add: sql_like_def del: patternCompare.simps)
qed

text \<open>On ASCII texts, compared with regard to case, this is the literal substring match.\<close>

lemma storeText_ascii: "asciiText s \<Longrightarrow> storeText s = map of_char s"
proof -
  assume a: "asciiText s"
  then have "CHR 0x00 \<notin> set s"
    by (auto simp: asciiText_def list_all_iff)
  then have "takeWhile (\<lambda>b. b \<noteq> CHR 0x00) s = s"
    by (rule takeWhile_no_nul)
  then have "storeText s = utf8Chars None s"
    unfolding storeText_def by (rule arg_cong)
  also from a have "\<dots> = map of_char s"
    by (induction s) (simp_all add: asciiText_def)
  finally show ?thesis .
qed

lemma likeEq_case_sensitive: "likeEq False = (=)"
  by (intro ext) (simp add: likeEq_def)

lemma prefixBy_map_of_char:
  "prefixBy (=) (map of_char v :: int list) (map of_char s) = prefix v s"
  by (induction v s rule: list_induct2') simp_all

lemma containsBy_map_of_char:
  "containsBy (=) (map of_char v :: int list) (map of_char s) = sublist v s"
proof (induction s)
  case Nil
  show ?case using prefixBy_map_of_char [of v "[]"] by simp
next
  case (Cons c cs)
  show ?case
    using prefixBy_map_of_char [of v "c # cs"] Cons.IH by (simp add: sublist_Cons_right)
qed

lemma containsBy_ascii:
  "asciiText v \<Longrightarrow> asciiText s \<Longrightarrow>
     containsBy (likeEq False) (storeText v) (storeText s) = sublist v s"
  by (simp only: storeText_ascii likeEq_case_sensitive containsBy_map_of_char)

lemma lookupArg_url:
  "url r \<noteq> [] \<Longrightarrow> lookupArg ''url'' (snd (buildFilter r)) = ''%'' @ url r @ ''%''"
  by (simp add: buildFilter_parameters)

lemma lookupArg_ref:
  "ref r \<noteq> [] \<Longrightarrow> lookupArg ''ref'' (snd (buildFilter r)) = ''%'' @ ref r @ ''%''"
  by (simp add: buildFilter_parameters)

lemma lookupArg_ua:
  "ua r \<noteq> [] \<Longrightarrow> lookupArg ''ua'' (snd (buildFilter r)) = ''%'' @ ua r @ ''%''"
  by (simp add: buildFilter_parameters)

text \<open>An active predicate stands in the statement, for each of the seven views.\<close>

lemma sublist_prepend:
  assumes "sublist p x"
  shows "sublist p (a @ x)"
proof -
  from assms obtain ps ss where "x = ps @ p @ ss"
    by (auto simp: sublist_def)
  then have "a @ x = (a @ ps) @ p @ ss" by simp
  then show ?thesis unfolding sublist_def by blast
qed

lemma spec_conjunction_sublist:
  "p \<in> set ps \<Longrightarrow> sublist p (spec_conjunction ps)"
proof (induction ps rule: spec_conjunction.induct)
  case 1
  then show ?case by simp
next
  case (2 q)
  then show ?case by simp
next
  case (3 q q' qs)
  show ?case
  proof (cases "p = q")
    case True
    then show ?thesis by simp
  next
    case False
    with 3 have "sublist p (spec_conjunction (q' # qs))" by simp
    then have "sublist p ((q @ '' and '') @ spec_conjunction (q' # qs))"
      by (rule sublist_prepend)
    then show ?thesis by simp
  qed
qed

lemma buildStatement_has_filter:
  assumes "view r \<in> {PAGES, REFERRERS, USERAGENTS, HOURS, DAYS, WEEKS, MONTHS}"
  shows "sublist f (buildStatement r f)"
proof (cases "f = []")
  case True
  then show ?thesis by simp
next
  case False
  have "\<exists>a b. buildStatement r f = a @ f @ b"
  proof -
    consider "view r = PAGES" | "view r = REFERRERS" | "view r = USERAGENTS"
      | "view r = HOURS" | "view r = DAYS" | "view r = WEEKS" | "view r = MONTHS"
      using assms by auto
    then show ?thesis
    proof cases
      case 1
      with False have "buildStatement r f =
          ''SELECT url as first, count(*) as second from views where '' @ f @ '' group by url;''"
        by (simp add: buildStatement_def)
      then show ?thesis by blast
    next
      case 2
      with False have "buildStatement r f =
          ''SELECT ref as first, count(*) as second from views where '' @ f @ '' group by ref;''"
        by (simp add: buildStatement_def View_defs)
      then show ?thesis by blast
    next
      case 3
      with False have "buildStatement r f =
          ''SELECT useragent as first, count(*) as second from views where '' @ f
            @ '' group by useragent;''"
        by (simp add: buildStatement_def View_defs)
      then show ?thesis by blast
    next
      case 4
      with False have "buildStatement r f =
          ''SELECT strftime('%Y-%m-%d %H', time, 'localtime') as first, count(*) as second from views where ''
            @ f @ '' group by first;''"
        by (simp add: buildStatement_def View_defs)
      then show ?thesis by blast
    next
      case 5
      with False have "buildStatement r f =
          ''SELECT strftime('%Y-%m-%d', time, 'localtime') as first, count(*) as second from views where ''
            @ f @ '' group by first;''"
        by (simp add: buildStatement_def View_defs)
      then show ?thesis by blast
    next
      case 6
      with False have "buildStatement r f =
          ''SELECT strftime('%Y-%W', time, 'localtime') as first, count(*) as second from views where ''
            @ f @ '' group by first;''"
        by (simp add: buildStatement_def View_defs)
      then show ?thesis by blast
    next
      case 7
      with False have "buildStatement r f =
          ''SELECT strftime('%Y-%m', time, 'localtime') as first, count(*) as second from views where ''
            @ f @ '' group by first;''"
        by (simp add: buildStatement_def View_defs)
      then show ?thesis by blast
    qed
  qed
  then show ?thesis by (auto simp: sublist_def)
qed

lemma statement_has_predicate:
  assumes "p \<in> set (spec_active_predicates r)"
    and "view r \<in> {PAGES, REFERRERS, USERAGENTS, HOURS, DAYS, WEEKS, MONTHS}"
  shows "sublist p (buildStatement r (fst (buildFilter r)))"
proof -
  have "sublist p (fst (buildFilter r))"
    using assms(1) by (simp only: buildFilter_text spec_conjunction_sublist)
  moreover have "sublist (fst (buildFilter r)) (buildStatement r (fst (buildFilter r)))"
    using assms(2) by (rule buildStatement_has_filter)
  ultimately show ?thesis by (rule sublist_order.order.trans)
qed

text \<open>The statement text does not change with the value of a filter that is set.\<close>

lemma statement_same_emptiness:
  assumes "view r1 = view r2"
    and "(from r1 = []) = (from r2 = [])" and "(to r1 = []) = (to r2 = [])"
    and "(url r1 = []) = (url r2 = [])" and "(ref r1 = []) = (ref r2 = [])"
    and "(ua r1 = []) = (ua r2 = [])"
  shows "buildStatement r1 (fst (buildFilter r1)) = buildStatement r2 (fst (buildFilter r2))"
proof -
  have "spec_active_predicates r1 = spec_active_predicates r2"
    using assms(2-) by (rule spec_active_predicates_cong)
  then have "fst (buildFilter r1) = fst (buildFilter r2)"
    by (simp only: buildFilter_text)
  moreover have "buildStatement r1 (fst (buildFilter r2)) = buildStatement r2 (fst (buildFilter r2))"
    using assms(1) by (rule buildStatement_view_cong)
  ultimately show ?thesis by (simp only:)
qed

section \<open>Facts about recording\<close>

text \<open>
  With a referrer that \<open>url.Parse\<close> accepts and a store that can write, \<open>trackView\<close>
  appends one row; its referrer column holds the host of the parsed referrer, port
  stripped, and nothing else of it.
\<close>

lemma trackView_records_hostname:
  assumes "urlString \<noteq> []" and "ref0 \<noteq> []" and "url_Parse lib ref0 = Some u"
    and "fault s = None"
  shows "\<exists>s'. trackView lib s urlString ref0 [] = Inr s'
           \<and> views s' = views s @ [(urlString, stripPort lib (Host u), [])]
           \<and> stdout s' = stdout s"
  using assms by (simp add: trackView_def Hostname_def Exec_def)

section \<open>The claims\<close>

text \<open>
  Claim C1. The statement text \<open>request\<close> sends does not depend on the values of the
  filters \<open>from\<close>, \<open>to\<close>, \<open>url\<close>, \<open>ref\<close> and \<open>ua\<close>: two requests with the same view and
  the same filters set yield the same text. The values travel in the bound parameters
  only, one named parameter for each filter that is set.
\<close>

theorem statement_independent_of_filter_values:
  assumes "view r1 = view r2"
    and "(from r1 = []) = (from r2 = [])" and "(to r1 = []) = (to r2 = [])"
    and "(url r1 = []) = (url r2 = [])" and "(ref r1 = []) = (ref r2 = [])"
    and "(ua r1 = []) = (ua r2 = [])"
  shows "buildStatement r1 (fst (buildFilter r1)) = buildStatement r2 (fst (buildFilter r2))
    \<and> snd (buildFilter r1) =
        (if from r1 = [] then [] else [Named ''from'' (from r1)])
        @ (if to r1 = [] then [] else [Named ''to'' (to r1)])
        @ (if url r1 = [] then [] else [Named ''url'' (''%'' @ url r1 @ ''%'')])
        @ (if ref r1 = [] then [] else [Named ''ref'' (''%'' @ ref r1 @ ''%'')])
        @ (if ua r1 = [] then [] else [Named ''ua'' (''%'' @ ua r1 @ ''%'')])"
proof
  have "spec_active_predicates r1 = spec_active_predicates r2"
    using assms(2-) by (rule spec_active_predicates_cong)
  then have "fst (buildFilter r1) = fst (buildFilter r2)"
    by (simp only: buildFilter_text)
  moreover have "buildStatement r1 (fst (buildFilter r2)) = buildStatement r2 (fst (buildFilter r2))"
    using assms(1) by (rule buildStatement_view_cong)
  ultimately show "buildStatement r1 (fst (buildFilter r1)) = buildStatement r2 (fst (buildFilter r2))"
    by (simp only:)
next
  show "snd (buildFilter r1) =
        (if from r1 = [] then [] else [Named ''from'' (from r1)])
        @ (if to r1 = [] then [] else [Named ''to'' (to r1)])
        @ (if url r1 = [] then [] else [Named ''url'' (''%'' @ url r1 @ ''%'')])
        @ (if ref r1 = [] then [] else [Named ''ref'' (''%'' @ ref r1 @ ''%'')])
        @ (if ua r1 = [] then [] else [Named ''ua'' (''%'' @ ua r1 @ ''%'')])"
    by (rule buildFilter_parameters)
qed

text \<open>
  The request with a quote and SQL text in its \<open>url\<close> filter and wildcards in the other
  two yields the statement of the plain request.
\<close>

theorem statement_independent_of_filter_values_witness:
  "view injectionRequest = view blogRequest
   \<and> (from injectionRequest = []) = (from blogRequest = [])
   \<and> (to injectionRequest = []) = (to blogRequest = [])
   \<and> (url injectionRequest = []) = (url blogRequest = [])
   \<and> (ref injectionRequest = []) = (ref blogRequest = [])
   \<and> (ua injectionRequest = []) = (ua blogRequest = [])
   \<and> buildStatement injectionRequest (fst (buildFilter injectionRequest)) =
       buildStatement blogRequest (fst (buildFilter blogRequest))
   \<and> snd (buildFilter injectionRequest) =
       [Named ''from'' ''2019-05-01'', Named ''url'' ''%a' OR 1=1 --%'', Named ''ref'' ''%%%'',
        Named ''ua'' ''%_%'']"
  using statement_independent_of_filter_values [of injectionRequest blogRequest]
  by (simp add: injectionRequest_def blogRequest_def)

text \<open>
  Claim C2, as amended. When \<open>Scan\<close> fails on a row, \<open>request\<close> reads no further row,
  releases the cursor and returns the error; the rows read before the failing one are
  not cleared, they are returned beside the error.
\<close>

theorem request_scan_error:
  assumes "Query lib s (buildStatement req (fst (buildFilter req))) (snd (buildFilter req)) = Inr rows"
    and "\<not> closed rows" and "pending rows = map Inr good @ Inl err # rest"
  shows "request lib s req =
           (Some (map (\<lambda>(f, n). \<lparr>First = f, Second = n\<rparr>) good), Some err,
            Some (rows\<lparr>pending := rest, current := Some (Inl err), closed := True\<rparr>))"
  using assms(1) scanRows_scan_error [OF assms(2,3), of "[]"]
  by (simp add: request_unfold)

theorem request_scan_error_witness:
  "Query (sampleLibrary brokenRows) emptyState
      (buildStatement blogRequest (fst (buildFilter blogRequest))) (snd (buildFilter blogRequest))
     = Inr brokenRows
   \<and> \<not> closed brokenRows
   \<and> pending brokenRows =
       map Inr [(''/a'', 2)] @ Inl ''converting NULL to int is unsupported'' # [Inr (''/b'', 1)]
   \<and> request (sampleLibrary brokenRows) emptyState blogRequest =
       (Some [\<lparr>First = ''/a'', Second = 2\<rparr>], Some ''converting NULL to int is unsupported'',
        Some \<lparr>pending = [Inr (''/b'', 1)],
              current = Some (Inl ''converting NULL to int is unsupported''), closed = True\<rparr>)"
  using request_scan_error [of "sampleLibrary brokenRows" emptyState blogRequest brokenRows
      "[(''/a'', 2)]" "''converting NULL to int is unsupported''" "[Inr (''/b'', 1)]"]
  by (simp add: sampleLibrary_def brokenRows_def)

text \<open>
  Claim C2 as stated fails: with a cursor whose second row cannot be scanned, the caller
  receives the first row together with the error, not a discarded result.
\<close>

theorem request_partial_rows_counterexample:
  "fst (request (sampleLibrary brokenRows) emptyState blogRequest)
     = Some [\<lparr>First = ''/a'', Second = 2\<rparr>]
   \<and> fst (snd (request (sampleLibrary brokenRows) emptyState blogRequest))
     = Some ''converting NULL to int is unsupported''"
proof -
  have "scanRows brokenRows [] =
          ([] @ map (\<lambda>(f, n). \<lparr>First = f, Second = n\<rparr>) [(''/a'', 2)],
           Some ''converting NULL to int is unsupported'',
           brokenRows\<lparr>pending := [Inr (''/b'', 1)],
             current := Some (Inl ''converting NULL to int is unsupported''), closed := True\<rparr>)"
    by (rule scanRows_scan_error) (simp_all add: brokenRows_def)
  then show ?thesis
    by (simp add: request_unfold sampleLibrary_def)
qed

text \<open>
  Claim C3. With a non-empty url, a referrer that \<open>url.Parse\<close> rejects does not yield an
  empty hostname: \<open>trackView\<close> calls \<open>Hostname\<close> on the nil pointer and panics, and no
  row is recorded.
\<close>

theorem trackView_malformed_referrer_panics:
  assumes "urlString \<noteq> []" and "ref0 \<noteq> []" and "url_Parse lib ref0 = None"
  shows "trackView lib s urlString ref0 ua0 = Inl NilPointerDereference"
  using assms by (simp add: trackView_def Hostname_def)

theorem trackView_malformed_referrer_panics_witness:
  "''/page'' \<noteq> [] \<and> ''://example.com'' \<noteq> []
   \<and> url_Parse (sampleLibrary emptyRows) ''://example.com'' = None
   \<and> trackView (sampleLibrary emptyRows) emptyState ''/page'' ''://example.com'' ''Mozilla/5.0''
       = Inl NilPointerDereference"
  using trackView_malformed_referrer_panics [of "''/page''" "''://example.com''"
      "sampleLibrary emptyRows" emptyState "''Mozilla/5.0''"]
  by (simp add: sampleLibrary_def)

text \<open>
  Claim C4, as amended. For a filter value in \<open>url\<close>, \<open>ref\<close> or \<open>ua\<close> that has no \<open>%\<close>,
  no \<open>_\<close> and no NUL byte in it and that, with the two \<open>%\<close> around it, is within the
  store's pattern limit (quote characters and all other SQL metacharacters included), the
  filter is a substring match on the stored column as the store reads text: a stored
  value matches exactly when its characters before the first NUL byte contain the
  characters of the filter value, ASCII letters compared without regard to case unless
  the store is set to a case-sensitive \<open>like\<close>. For ASCII texts without NUL under a
  case-sensitive \<open>like\<close> this is the literal substring match. The filter value \<open>%\<close> matches
  every stored value. For each of the seven views the predicate stands in the statement
  \<open>request\<close> hands to \<open>Query\<close>, the value travels in the parameters only, and the
  statement text is the same for every non-empty value of the filter.
\<close>

theorem like_filters_on_the_store:
  "(url r \<noteq> [] \<and> CHR ''%'' \<notin> set (url r) \<and> CHR ''_'' \<notin> set (url r) \<and> CHR 0x00 \<notin> set (url r)
      \<and> length (url r) + 2 \<le> patternLimit st \<longrightarrow>
      sql_like st (lookupArg ''url'' (snd (buildFilter r))) stored =
        Inr (containsBy (likeEq (noCase st)) (storeText (url r)) (storeText stored)))
   \<and> (ref r \<noteq> [] \<and> CHR ''%'' \<notin> set (ref r) \<and> CHR ''_'' \<notin> set (ref r) \<and> CHR 0x00 \<notin> set (ref r)
      \<and> length (ref r) + 2 \<le> patternLimit st \<longrightarrow>
      sql_like st (lookupArg ''ref'' (snd (buildFilter r))) stored =
        Inr (containsBy (likeEq (noCase st)) (storeText (ref r)) (storeText stored)))
   \<and> (ua r \<noteq> [] \<and> CHR ''%'' \<notin> set (ua r) \<and> CHR ''_'' \<notin> set (ua r) \<and> CHR 0x00 \<notin> set (ua r)
      \<and> length (ua r) + 2 \<le> patternLimit st \<longrightarrow>
      sql_like st (lookupArg ''ua'' (snd (buildFilter r))) stored =
        Inr (containsBy (likeEq (noCase st)) (storeText (ua r)) (storeText stored)))
   \<and> (asciiText v \<and> asciiText stored \<longrightarrow>
      containsBy (likeEq False) (storeText v) (storeText stored) = sublist v stored)
   \<and> (url r = ''%'' \<and> 3 \<le> patternLimit st \<longrightarrow>
      sql_like st (lookupArg ''url'' (snd (buildFilter r))) stored = Inr True)
   \<and> (ref r = ''%'' \<and> 3 \<le> patternLimit st \<longrightarrow>
      sql_like st (lookupArg ''ref'' (snd (buildFilter r))) stored = Inr True)
   \<and> (ua r = ''%'' \<and> 3 \<le> patternLimit st \<longrightarrow>
      sql_like st (lookupArg ''ua'' (snd (buildFilter r))) stored = Inr True)
   \<and> (view r \<in> {PAGES, REFERRERS, USERAGENTS, HOURS, DAYS, WEEKS, MONTHS} \<longrightarrow>
        (url r \<noteq> [] \<longrightarrow> sublist ''url like :url'' (buildStatement r (fst (buildFilter r))))
      \<and> (ref r \<noteq> [] \<longrightarrow> sublist ''ref like :ref'' (buildStatement r (fst (buildFilter r))))
      \<and> (ua r \<noteq> [] \<longrightarrow> sublist ''useragent like :ua'' (buildStatement r (fst (buildFilter r)))))
   \<and> (url r \<noteq> [] \<and> w \<noteq> [] \<longrightarrow>
        buildStatement (r\<lparr>url := w\<rparr>) (fst (buildFilter (r\<lparr>url := w\<rparr>))) =
        buildStatement r (fst (buildFilter r)))
   \<and> (ref r \<noteq> [] \<and> w \<noteq> [] \<longrightarrow>
        buildStatement (r\<lparr>ref := w\<rparr>) (fst (buildFilter (r\<lparr>ref := w\<rparr>))) =
        buildStatement r (fst (buildFilter r)))
   \<and> (ua r \<noteq> [] \<and> w \<noteq> [] \<longrightarrow>
        buildStatement (r\<lparr>ua := w\<rparr>) (fst (buildFilter (r\<lparr>ua := w\<rparr>))) =
        buildStatement r (fst (buildFilter r)))
   \<and> request lib s r =
       (case Query lib s (buildStatement r (fst (buildFilter r))) (snd (buildFilter r)) of
          Inl e \<Rightarrow> (None, Some e, None)
        | Inr rows \<Rightarrow> (Some (fst (scanRows rows [])), fst (snd (scanRows rows [])),
                       Some (snd (snd (scanRows rows [])))))"
proof -
  have plain: "sql_like st (lookupArg ''url'' (snd (buildFilter r))) stored =
        Inr (containsBy (likeEq (noCase st)) (storeText (url r)) (storeText stored))"
    if "url r \<noteq> []" "CHR ''%'' \<notin> set (url r)" "CHR ''_'' \<notin> set (url r)"
      "CHR 0x00 \<notin> set (url r)" "length (url r) + 2 \<le> patternLimit st"
    using sql_like_plain_value [OF that(2-5), of stored] by (simp only: lookupArg_url [OF that(1)])
  have plain_ref: "sql_like st (lookupArg ''ref'' (snd (buildFilter r))) stored =
        Inr (containsBy (likeEq (noCase st)) (storeText (ref r)) (storeText stored))"
    if "ref r \<noteq> []" "CHR ''%'' \<notin> set (ref r)" "CHR ''_'' \<notin> set (ref r)"
      "CHR 0x00 \<notin> set (ref r)" "length (ref r) + 2 \<le> patternLimit st"
    using sql_like_plain_value [OF that(2-5), of stored] by (simp only: lookupArg_ref [OF that(1)])
  have plain_ua: "sql_like st (lookupArg ''ua'' (snd (buildFilter r))) stored =
        Inr (containsBy (likeEq (noCase st)) (storeText (ua r)) (storeText stored))"
    if "ua r \<noteq> []" "CHR ''%'' \<notin> set (ua r)" "CHR ''_'' \<notin> set (ua r)"
      "CHR 0x00 \<notin> set (ua r)" "length (ua r) + 2 \<le> patternLimit st"
    using sql_like_plain_value [OF that(2-5), of stored] by (simp only: lookupArg_ua [OF that(1)])
  have pct: "sql_like st (lookupArg ''url'' (snd (buildFilter r))) stored = Inr True"
    if "url r = ''%''" "3 \<le> patternLimit st"
    using that sql_like_percent_value [of st stored] by (simp add: lookupArg_url)
  have pct_ref: "sql_like st (lookupArg ''ref'' (snd (buildFilter r))) stored = Inr True"
    if "ref r = ''%''" "3 \<le> patternLimit st"
    using that sql_like_percent_value [of st stored] by (simp add: lookupArg_ref)
  have pct_ua: "sql_like st (lookupArg ''ua'' (snd (buildFilter r))) stored = Inr True"
    if "ua r = ''%''" "3 \<le> patternLimit st"
    using that sql_like_percent_value [of st stored] by (simp add: lookupArg_ua)
  have stands: "sublist ''url like :url'' (buildStatement r (fst (buildFilter r)))"
    if "view r \<in> {PAGES, REFERRERS, USERAGENTS, HOURS, DAYS, WEEKS, MONTHS}" "url r \<noteq> []"
    using that by (intro statement_has_predicate) (simp_all add: spec_active_predicates_def)
  have stands_ref: "sublist ''ref like :ref'' (buildStatement r (fst (buildFilter r)))"
    if "view r \<in> {PAGES, REFERRERS, USERAGENTS, HOURS, DAYS, WEEKS, MONTHS}" "ref r \<noteq> []"
    using that by (intro statement_has_predicate) (simp_all add: spec_active_predicates_def)
  have stands_ua: "sublist ''useragent like :ua'' (buildStatement r (fst (buildFilter r)))"
    if "view r \<in> {PAGES, REFERRERS, USERAGENTS, HOURS, DAYS, WEEKS, MONTHS}" "ua r \<noteq> []"
    using that by (intro statement_has_predicate) (simp_all add: spec_active_predicates_def)
  have same: "buildStatement (r\<lparr>url := w\<rparr>) (fst (buildFilter (r\<lparr>url := w\<rparr>))) =
        buildStatement r (fst (buildFilter r))"
    if "url r \<noteq> []" "w \<noteq> []"
    using that by (intro statement_same_emptiness) simp_all
  have same_ref: "buildStatement (r\<lparr>ref := w\<rparr>) (fst (buildFilter (r\<lparr>ref := w\<rparr>))) =
        buildStatement r (fst (buildFilter r))"
    if "ref r \<noteq> []" "w \<noteq> []"
    using that by (intro statement_same_emptiness) simp_all
  have same_ua: "buildStatement (r\<lparr>ua := w\<rparr>) (fst (buildFilter (r\<lparr>ua := w\<rparr>))) =
        buildStatement r (fst (buildFilter r))"
    if "ua r \<noteq> []" "w \<noteq> []"
    using that by (intro statement_same_emptiness) simp_all
  have ascii: "asciiText v \<and> asciiText stored \<longrightarrow>
      containsBy (likeEq False) (storeText v) (storeText stored) = sublist v stored"
    using containsBy_ascii [of v stored] by blast
  have stand_all: "view r \<in> {PAGES, REFERRERS, USERAGENTS, HOURS, DAYS, WEEKS, MONTHS} \<longrightarrow>
        (url r \<noteq> [] \<longrightarrow> sublist ''url like :url'' (buildStatement r (fst (buildFilter r))))
      \<and> (ref r \<noteq> [] \<longrightarrow> sublist ''ref like :ref'' (buildStatement r (fst (buildFilter r))))
      \<and> (ua r \<noteq> [] \<longrightarrow> sublist ''useragent like :ua'' (buildStatement r (fst (buildFilter r))))"
    using stands stands_ref stands_ua by blast
  show ?thesis
  proof (intro conjI)
    show "request lib s r =
       (case Query lib s (buildStatement r (fst (buildFilter r))) (snd (buildFilter r)) of
          Inl e \<Rightarrow> (None, Some e, None)
        | Inr rows \<Rightarrow> (Some (fst (scanRows rows [])), fst (snd (scanRows rows [])),
                       Some (snd (snd (scanRows rows [])))))"
      by (rule request_unfold)
  qed (use plain plain_ref plain_ua pct pct_ref pct_ua same same_ref same_ua ascii stand_all
       in blast)+
qed

text \<open>
  Under the default settings the filters of the plain request match without regard to
  case; the filter \<open>%\<close> of the other request matches a referrer that has no \<open>%\<close> in it.
\<close>

theorem like_filters_on_the_store_witness:
  "url blogRequest \<noteq> [] \<and> CHR ''%'' \<notin> set (url blogRequest) \<and> CHR ''_'' \<notin> set (url blogRequest)
   \<and> CHR 0x00 \<notin> set (url blogRequest) \<and> length (url blogRequest) + 2 \<le> patternLimit defaultLike
   \<and> ref blogRequest \<noteq> [] \<and> CHR ''%'' \<notin> set (ref blogRequest) \<and> CHR ''_'' \<notin> set (ref blogRequest)
   \<and> CHR 0x00 \<notin> set (ref blogRequest) \<and> length (ref blogRequest) + 2 \<le> patternLimit defaultLike
   \<and> ua blogRequest \<noteq> [] \<and> CHR ''%'' \<notin> set (ua blogRequest) \<and> CHR ''_'' \<notin> set (ua blogRequest)
   \<and> CHR 0x00 \<notin> set (ua blogRequest) \<and> length (ua blogRequest) + 2 \<le> patternLimit defaultLike
   \<and> view blogRequest \<in> {PAGES, REFERRERS, USERAGENTS, HOURS, DAYS, WEEKS, MONTHS}
   \<and> sql_like defaultLike (lookupArg ''url'' (snd (buildFilter blogRequest)))
        ''https://site/Blog/post1'' = Inr True
   \<and> sql_like defaultLike (lookupArg ''ref'' (snd (buildFilter blogRequest)))
        ''www.example.com'' = Inr True
   \<and> sql_like defaultLike (lookupArg ''ua'' (snd (buildFilter blogRequest)))
        ''Chrome 74.0'' = Inr False
   \<and> sublist ''url like :url'' (buildStatement blogRequest (fst (buildFilter blogRequest)))
   \<and> buildStatement (blogRequest\<lparr>url := ''a' OR 1=1 --''\<rparr>)
        (fst (buildFilter (blogRequest\<lparr>url := ''a' OR 1=1 --''\<rparr>))) =
      buildStatement blogRequest (fst (buildFilter blogRequest))
   \<and> buildStatement (blogRequest\<lparr>ref := ''a' OR 1=1 --''\<rparr>)
        (fst (buildFilter (blogRequest\<lparr>ref := ''a' OR 1=1 --''\<rparr>))) =
      buildStatement blogRequest (fst (buildFilter blogRequest))
   \<and> buildStatement (blogRequest\<lparr>ua := ''a' OR 1=1 --''\<rparr>)
        (fst (buildFilter (blogRequest\<lparr>ua := ''a' OR 1=1 --''\<rparr>))) =
      buildStatement blogRequest (fst (buildFilter blogRequest))
   \<and> ref injectionRequest = ''%'' \<and> 3 \<le> patternLimit defaultLike
   \<and> sql_like defaultLike (lookupArg ''ref'' (snd (buildFilter injectionRequest)))
        ''www.example.com'' = Inr True
   \<and> sql_like defaultLike (lookupArg ''url'' (snd (buildFilter (blogRequest\<lparr>url := ''%''\<rparr>))))
        ''www.example.com'' = Inr True
   \<and> sql_like defaultLike (lookupArg ''ua'' (snd (buildFilter (blogRequest\<lparr>ua := ''%''\<rparr>))))
        ''www.example.com'' = Inr True
   \<and> asciiText ''blog'' \<and> asciiText ''/Blog''
   \<and> \<not> containsBy (likeEq False) (storeText ''blog'') (storeText ''/Blog'')"
proof -
  note a = like_filters_on_the_store [of blogRequest defaultLike "''https://site/Blog/post1''"
      "''blog''" "''a' OR 1=1 --''"]
  note b = like_filters_on_the_store [of blogRequest defaultLike "''www.example.com''"]
  note c = like_filters_on_the_store [of blogRequest defaultLike "''Chrome 74.0''"]
  note d = like_filters_on_the_store [of injectionRequest defaultLike "''www.example.com''"]
  note e = like_filters_on_the_store [of blogRequest defaultLike "''/Blog''" "''blog''"]
  note f = like_filters_on_the_store [of "blogRequest\<lparr>url := ''%''\<rparr>" defaultLike
      "''www.example.com''"]
  note g = like_filters_on_the_store [of "blogRequest\<lparr>ua := ''%''\<rparr>" defaultLike
      "''www.example.com''"]
  have hyps: "url blogRequest = ''blog''" "ref blogRequest = ''example.com''"
    "ua blogRequest = ''Firefox''" "view blogRequest = PAGES" "ref injectionRequest = ''%''"
    "patternLimit defaultLike = 50000" "noCase defaultLike"
    by (simp_all add: blogRequest_def injectionRequest_def defaultLike_def)
  have texts: "storeText ''blog'' = [98, 108, 111, 103]"
    "storeText ''https://site/Blog/post1'' =
       [104, 116, 116, 112, 115, 58, 47, 47, 115, 105, 116, 101, 47, 66, 108, 111, 103, 47, 112,
        111, 115, 116, 49]"
    "storeText ''example.com'' = [101, 120, 97, 109, 112, 108, 101, 46, 99, 111, 109]"
    "storeText ''www.example.com'' =
       [119, 119, 119, 46, 101, 120, 97, 109, 112, 108, 101, 46, 99, 111, 109]"
    "storeText ''Firefox'' = [70, 105, 114, 101, 102, 111, 120]"
    "storeText ''Chrome 74.0'' = [67, 104, 114, 111, 109, 101, 32, 55, 52, 46, 48]"
    by (simp_all add: storeText_def)
  have ascii: "asciiText ''blog''" "asciiText ''/Blog''"
    by (simp_all add: asciiText_def)
  have m1: "containsBy (likeEq True) [98, 108, 111, 103]
       [104, 116, 116, 112, 115, 58, 47, 47, 115, 105, 116, 101, 47, 66, 108, 111, 103, 47, 112,
        111, 115, 116, 49]"
    by (simp add: likeEq_def asciiLower_def)
  have m2: "containsBy (likeEq True) [101, 120, 97, 109, 112, 108, 101, 46, 99, 111, 109]
       [119, 119, 119, 46, 101, 120, 97, 109, 112, 108, 101, 46, 99, 111, 109]"
    by (simp add: likeEq_def asciiLower_def)
  have m3: "\<not> containsBy (likeEq True) [70, 105, 114, 101, 102, 111, 120]
       [67, 104, 114, 111, 109, 101, 32, 55, 52, 46, 48]"
    by (simp add: likeEq_def asciiLower_def)
  have m4: "\<not> sublist ''blog'' ''/Blog''"
    by (simp add: sublist_Cons_right)
  show ?thesis
    using a b c d e f g hyps texts ascii m1 m2 m3 m4
    by (simp add: View_defs)
qed

text \<open>
  Claim C4 as stated fails for the LIKE wildcards, also where \<open>like\<close> regards case: the
  filter value \<open>%\<close> matches the stored url \<open>/about\<close>, which does not contain it.
\<close>

theorem like_filter_wildcard_counterexample:
  "sql_like caseSensitiveLike (lookupArg ''url''
      (snd (buildFilter \<lparr>view = PAGES, from = [], to = [], url = ''%'', ref = [], ua = []\<rparr>)))
      ''/about'' = Inr True
   \<and> \<not> sublist ''%'' ''/about''"
  by (simp add: buildFilter_parameters sublist_Cons_right sql_like_def storeText_def
      caseSensitiveLike_def likeEq_def)

text \<open>
  Claim C5. With an empty url \<open>trackView\<close> returns at once and leaves everything as it
  was: no row is added to the table, nothing is printed, no library is called, and the
  call does not panic.
\<close>

theorem trackView_empty_url:
  "trackView lib s [] ref0 ua0 = Inr s"
  by (simp add: trackView_def)

theorem trackView_empty_url_witness:
  "trackView (sampleLibrary emptyRows) emptyState [] ''https://example.com/a?b=1'' ''Mozilla/5.0''
     = Inr emptyState
   \<and> views emptyState = []"
  using trackView_empty_url [of "sampleLibrary emptyRows" emptyState
      "''https://example.com/a?b=1''" "''Mozilla/5.0''"]
  by (simp add: emptyState_def)

text \<open>
  Claim C6. \<open>buildDateTimeFilter\<close> yields the \<open>between\<close> predicate and binds \<open>from\<close> then
  \<open>to\<close> when both are set, the predicate \<open>>= :from\<close> when only \<open>from\<close> is set, the predicate
  \<open><= :to\<close> when only \<open>to\<close> is set, and no predicate and no parameter when neither is.
\<close>

theorem buildDateTimeFilter_cases:
  "(from r \<noteq> [] \<and> to r \<noteq> [] \<longrightarrow>
      buildDateTimeFilter r ps =
        (''datetime(time, 'localtime') between :from and :to'',
         ps @ [Named ''from'' (from r), Named ''to'' (to r)]))
   \<and> (from r \<noteq> [] \<and> to r = [] \<longrightarrow>
      buildDateTimeFilter r ps =
        (''datetime(time, 'localtime') >= :from'', ps @ [Named ''from'' (from r)]))
   \<and> (from r = [] \<and> to r \<noteq> [] \<longrightarrow>
      buildDateTimeFilter r ps =
        (''datetime(time, 'localtime') <= :to'', ps @ [Named ''to'' (to r)]))
   \<and> (from r = [] \<and> to r = [] \<longrightarrow> buildDateTimeFilter r ps = ([], ps))"
  by (simp add: buildDateTimeFilter_def)

theorem buildDateTimeFilter_cases_witness:
  "buildDateTimeFilter
      \<lparr>view = DAYS, from = ''2019-05-01'', to = ''2019-05-31'', url = [], ref = [], ua = []\<rparr> []
     = (''datetime(time, 'localtime') between :from and :to'',
        [Named ''from'' ''2019-05-01'', Named ''to'' ''2019-05-31''])
   \<and> buildDateTimeFilter
      \<lparr>view = DAYS, from = ''2019-05-01'', to = [], url = [], ref = [], ua = []\<rparr> []
     = (''datetime(time, 'localtime') >= :from'', [Named ''from'' ''2019-05-01''])
   \<and> buildDateTimeFilter
      \<lparr>view = DAYS, from = [], to = ''2019-05-31'', url = [], ref = [], ua = []\<rparr> []
     = (''datetime(time, 'localtime') <= :to'', [Named ''to'' ''2019-05-31''])
   \<and> buildDateTimeFilter
      \<lparr>view = DAYS, from = [], to = [], url = ''blog'', ref = [], ua = []\<rparr> [] = ([], [])"
  using
    buildDateTimeFilter_cases [of
      "\<lparr>view = DAYS, from = ''2019-05-01'', to = ''2019-05-31'', url = [], ref = [], ua = []\<rparr>" "[]"]
    buildDateTimeFilter_cases [of
      "\<lparr>view = DAYS, from = ''2019-05-01'', to = [], url = [], ref = [], ua = []\<rparr>" "[]"]
    buildDateTimeFilter_cases [of
      "\<lparr>view = DAYS, from = [], to = ''2019-05-31'', url = [], ref = [], ua = []\<rparr>" "[]"]
    buildDateTimeFilter_cases [of
      "\<lparr>view = DAYS, from = [], to = [], url = ''blog'', ref = [], ua = []\<rparr>" "[]"]
  by simp

text \<open>
  Claim C7. The filter text of \<open>buildFilter\<close> is the conjunction, with \<open>and\<close>, of exactly
  the active predicates in the order datetime, url, ref, ua. With no filter set the text
  is empty and the statement \<open>buildStatement\<close> makes of it has no \<open>where\<close> in it.
\<close>

theorem buildFilter_conjunction_of_active:
  "fst (buildFilter r) = spec_conjunction (spec_active_predicates r)
   \<and> (from r = [] \<and> to r = [] \<and> url r = [] \<and> ref r = [] \<and> ua r = [] \<longrightarrow>
        fst (buildFilter r) = []
        \<and> \<not> sublist ''where'' (buildStatement r (fst (buildFilter r))))"
  by (simp add: buildFilter_text spec_active_predicates_none buildStatement_no_filter_no_where)

theorem buildFilter_conjunction_of_active_witness:
  "fst (buildFilter blogRequest) =
     ''datetime(time, 'localtime') >= :from and url like :url and ref like :ref and useragent like :ua''
   \<and> fst (buildFilter \<lparr>view = PAGES, from = [], to = [], url = [], ref = [], ua = []\<rparr>) = []
   \<and> \<not> sublist ''where''
        (buildStatement \<lparr>view = PAGES, from = [], to = [], url = [], ref = [], ua = []\<rparr>
           (fst (buildFilter \<lparr>view = PAGES, from = [], to = [], url = [], ref = [], ua = []\<rparr>)))"
  using buildFilter_conjunction_of_active [of blogRequest]
    buildFilter_conjunction_of_active
      [of "\<lparr>view = PAGES, from = [], to = [], url = [], ref = [], ua = []\<rparr>"]
  by (auto simp: blogRequest_def spec_active_predicates_def spec_datetime_predicate_def)

text \<open>
  Claim C8. For the four time views \<open>buildStatement\<close> selects and groups by the event
  time formatted in local time: \<open>%Y-%m-%d %H\<close> for HOURS, \<open>%Y-%m-%d\<close> for DAYS, \<open>%Y-%W\<close>
  for WEEKS and \<open>%Y-%m\<close> for MONTHS, with \<open>count(*)\<close> for each group.
\<close>

theorem buildStatement_time_buckets:
  "(view r = HOURS \<longrightarrow> buildStatement r f =
      ''SELECT strftime('%Y-%m-%d %H', time, 'localtime') as first, count(*) as second from views''
      @ (if f = [] then '' '' else '' where '' @ f @ '' '') @ ''group by first;'')
   \<and> (view r = DAYS \<longrightarrow> buildStatement r f =
      ''SELECT strftime('%Y-%m-%d', time, 'localtime') as first, count(*) as second from views''
      @ (if f = [] then '' '' else '' where '' @ f @ '' '') @ ''group by first;'')
   \<and> (view r = WEEKS \<longrightarrow> buildStatement r f =
      ''SELECT strftime('%Y-%W', time, 'localtime') as first, count(*) as second from views''
      @ (if f = [] then '' '' else '' where '' @ f @ '' '') @ ''group by first;'')
   \<and> (view r = MONTHS \<longrightarrow> buildStatement r f =
      ''SELECT strftime('%Y-%m', time, 'localtime') as first, count(*) as second from views''
      @ (if f = [] then '' '' else '' where '' @ f @ '' '') @ ''group by first;'')"
  by (simp add: buildStatement_def View_defs)

theorem buildStatement_time_buckets_witness:
  "buildStatement \<lparr>view = HOURS, from = [], to = [], url = [], ref = [], ua = []\<rparr> [] =
     ''SELECT strftime('%Y-%m-%d %H', time, 'localtime') as first, count(*) as second from views group by first;''
   \<and> buildStatement \<lparr>view = DAYS, from = [], to = [], url = [], ref = [], ua = []\<rparr> [] =
     ''SELECT strftime('%Y-%m-%d', time, 'localtime') as first, count(*) as second from views group by first;''
   \<and> buildStatement \<lparr>view = WEEKS, from = [], to = [], url = ''blog'', ref = [], ua = []\<rparr>
       ''url like :url'' =
     ''SELECT strftime('%Y-%W', time, 'localtime') as first, count(*) as second from views where url like :url group by first;''
   \<and> buildStatement \<lparr>view = MONTHS, from = [], to = [], url = [], ref = [], ua = []\<rparr> [] =
     ''SELECT strftime('%Y-%m', time, 'localtime') as first, count(*) as second from views group by first;''"
  using
    buildStatement_time_buckets
      [of "\<lparr>view = HOURS, from = [], to = [], url = [], ref = [], ua = []\<rparr>" "[]"]
    buildStatement_time_buckets
      [of "\<lparr>view = DAYS, from = [], to = [], url = [], ref = [], ua = []\<rparr>" "[]"]
    buildStatement_time_buckets
      [of "\<lparr>view = WEEKS, from = [], to = [], url = ''blog'', ref = [], ua = []\<rparr>" "''url like :url''"]
    buildStatement_time_buckets
      [of "\<lparr>view = MONTHS, from = [], to = [], url = [], ref = [], ua = []\<rparr>" "[]"]
  by simp

text \<open>
  Claim C9. \<open>buildStatement\<close> returns for every view and every filter text, without an
  error: for a view that is none of the seven constants it returns the empty statement.
\<close>

theorem buildStatement_unknown_view:
  assumes "view r \<notin> {PAGES, REFERRERS, USERAGENTS, HOURS, DAYS, WEEKS, MONTHS}"
  shows "buildStatement r filters = []"
proof -
  from assms have "view r \<noteq> PAGES" "view r \<noteq> REFERRERS" "view r \<noteq> USERAGENTS"
    "view r \<noteq> HOURS" "view r \<noteq> DAYS" "view r \<noteq> WEEKS" "view r \<noteq> MONTHS"
    by simp_all
  then show ?thesis
    by (simp only: buildStatement_def Let_def if_False simp_thms)
qed

theorem buildStatement_unknown_view_witness:
  "(0 :: View) \<notin> {PAGES, REFERRERS, USERAGENTS, HOURS, DAYS, WEEKS, MONTHS}
   \<and> buildStatement \<lparr>view = 0, from = [], to = [], url = ''blog'', ref = [], ua = []\<rparr>
       ''url like :url'' = []"
  using buildStatement_unknown_view
      [of "\<lparr>view = 0, from = [], to = [], url = ''blog'', ref = [], ua = []\<rparr>" "''url like :url''"]
  by (simp add: View_defs)

text \<open>
  Claim C10. When the query succeeds and its cursor has no row, \<open>request\<close> returns an
  empty slice that is not nil, and a nil error.
\<close>

theorem request_no_rows:
  assumes "Query lib s (buildStatement req (fst (buildFilter req))) (snd (buildFilter req)) = Inr rows"
    and "pending rows = []"
  shows "fst (request lib s req) = Some [] \<and> fst (snd (request lib s req)) = None"
  using assms(1) scanRows_no_rows [OF assms(2), of "[]"]
  by (simp add: request_unfold)

theorem request_no_rows_witness:
  "Query (sampleLibrary emptyRows) emptyState
      (buildStatement blogRequest (fst (buildFilter blogRequest))) (snd (buildFilter blogRequest))
     = Inr emptyRows
   \<and> pending emptyRows = []
   \<and> fst (request (sampleLibrary emptyRows) emptyState blogRequest) = Some []
   \<and> fst (snd (request (sampleLibrary emptyRows) emptyState blogRequest)) = None"
  using request_no_rows [of "sampleLibrary emptyRows" emptyState blogRequest emptyRows]
  by (simp add: sampleLibrary_def emptyRows_def)

end
